theory Spec2Isabelle
  imports Complex_Main "HOL-Library.Word"
begin

section \<open>Data model of \<open>bmtrain/optim/lamb.py\<close>\<close>

text \<open>
  Tensors are dense lists of numbers.  The arithmetic of the optimizer is idealised:
  \<open>fp16\<close> and \<open>fp32\<close> values are real numbers and casts between the two
  precisions are the identity.  Only gradients, which the overflow check inspects, keep
  the non-finite values of the floating-point format.
\<close>

type_synonym tensor = "real list"

datatype fp = Finite real | PosInf | NegInf | NaN

text \<open>The value of a gradient element; it is only read after the overflow check.\<close>

fun fval :: "fp \<Rightarrow> real" where
  "fval (Finite r) = r"
| "fval PosInf = 0"
| "fval NegInf = 0"
| "fval NaN = 0"

record grad_t =
  gvals :: "fp list"
  is_sparse :: bool

text \<open>\<open>self.state[p]\<close>: the dictionary with the keys \<open>step\<close>, \<open>exp_avg\<close>,
  \<open>exp_avg_sq\<close> and \<open>param_fp32\<close>.\<close>

record pstate =
  state_step :: int
  exp_avg :: tensor
  exp_avg_sq :: tensor
  param_fp32 :: tensor

text \<open>
  A parameter \<open>p\<close>: its working values, \<open>p.grad\<close> (\<open>None\<close> when undefined) and its
  entry in \<open>self.state\<close>, where \<open>None\<close> is the empty dictionary
  (\<open>len(state) == 0\<close>).  Keeping the entry inside the parameter makes the parameters
  of an optimizer pairwise distinct objects, as \<open>torch.optim.Optimizer\<close> expects.
\<close>

record param =
  data :: tensor
  grad :: "grad_t option"
  state :: "pstate option"

record param_group =
  params :: "param list"
  lr :: real
  betas :: "real \<times> real"
  eps :: real
  weight_decay :: real

text \<open>The optimizer object: \<open>param_groups\<close>, \<open>_scale\<close>,
  \<open>_steps_since_last_scale\<close> and \<open>_hold_steps\<close>.\<close>

record lamb =
  param_groups :: "param_group list"
  scale :: real
  steps_since_last_scale :: int
  hold_steps :: int

datatype error = ValueError | ZeroDivisionError | OverflowError | RuntimeError | KeyError

section \<open>Construction\<close>

text \<open>\<open>LambOptimizer.__init__\<close> (lines 11 to 29), called with a list of tensors,
  which the base class turns into one group carrying the defaults, after rejecting an
  empty list.  Every check of the source is a branch; \<open>scale\<close> and
  \<open>hold_steps\<close> are stored as given.\<close>

definition init :: "param list \<Rightarrow> real \<Rightarrow> real \<times> real \<Rightarrow> real \<Rightarrow> real \<Rightarrow> real \<Rightarrow> int
    \<Rightarrow> error + lamb" where
  "init ps lr0 betas0 eps0 wd0 scale0 hold0 =
     (if \<not> 0 \<le> lr0 then Inl ValueError
      else if \<not> 0 \<le> eps0 then Inl ValueError
      else if \<not> (0 \<le> fst betas0 \<and> fst betas0 < 1) then Inl ValueError
      else if \<not> (0 \<le> snd betas0 \<and> snd betas0 < 1) then Inl ValueError
      else if \<not> 0 \<le> wd0 then Inl ValueError
      else if ps = [] then Inl ValueError
      else Inr \<lparr>param_groups =
                   [\<lparr>params = ps, lr = lr0, betas = betas0, eps = eps0, weight_decay = wd0\<rparr>],
                 scale = scale0, steps_since_last_scale = 0, hold_steps = hold0\<rparr>)"

section \<open>Rescaling\<close>

text \<open>\<open>LambOptimizer.justify_scale\<close> (lines 39 to 49).  The division
  \<open>scale / self._scale\<close> is the first statement, so a zero \<open>_scale\<close> raises
  \<open>ZeroDivisionError\<close> before anything is written.\<close>

definition rescale_param :: "real \<Rightarrow> param \<Rightarrow> param" where
  "rescale_param delta p =
     (case state p of
        None \<Rightarrow> p
      | Some s \<Rightarrow> p\<lparr>state := Some (s\<lparr>exp_avg := map (\<lambda>x. x * delta) (exp_avg s),
                                     exp_avg_sq := map (\<lambda>x. x * delta) (exp_avg_sq s)\<rparr>)\<rparr>)"

definition rescale_group :: "real \<Rightarrow> param_group \<Rightarrow> param_group" where
  "rescale_group delta g = g\<lparr>params := map (rescale_param delta) (params g)\<rparr>"

definition justify_scale :: "real \<Rightarrow> lamb \<Rightarrow> error + lamb" where
  "justify_scale new_scale self =
     (if scale self = 0 then Inl ZeroDivisionError
      else let delta = new_scale / scale self
           in Inr (self\<lparr>scale := new_scale,
                        param_groups := map (rescale_group delta) (param_groups self),
                        steps_since_last_scale := 0\<rparr>))"

section \<open>Kernels and collectives\<close>

text \<open>The arguments of the fused kernels \<open>f_lamb_prepare\<close> and \<open>f_adam\<close>, in the
  order of the calls at lines 105 and 124.\<close>

record kargs =
  k_param_fp32 :: tensor
  k_param_fp16 :: tensor
  k_grad :: "fp list"
  k_m :: tensor
  k_v :: tensor
  k_beta1 :: real
  k_beta2 :: real
  k_eps :: real
  k_lr :: real
  k_scale :: real
  k_weight_decay :: real
  k_step :: int

text \<open>
  Modelled from the spec: the modules \<open>lamb_cuda\<close> and \<open>adam_cuda\<close> are not part of
  the sources, so \<open>step\<close> takes their three kernels as a parameter.  Following
  sections 4.1 and 4.4, \<open>f_has_inf_nan\<close> only writes the flag it is given,
  \<open>f_lamb_prepare\<close> only writes the two partial sums \<open>numer\<close> and \<open>denom\<close>, and
  \<open>f_adam\<close> writes the master copy, the working copy, the momentum and the variance,
  returned in this order.
\<close>

record kernels =
  f_has_inf_nan :: "grad_t \<Rightarrow> 8 word \<Rightarrow> 8 word"
  f_lamb_prepare :: "kargs \<Rightarrow> real \<times> real"
  f_adam :: "kargs \<Rightarrow> tensor \<times> tensor \<times> tensor \<times> tensor"

text \<open>
  Modelled from the spec: the module \<open>nccl\<close> is not part of the sources.  A
  communicator is seen from one worker: it holds what the other workers of the group
  contribute to the collectives of one step, the overflow flags for the MAX-reduction
  and, for the parameter at position \<open>pj\<close> of group \<open>gi\<close>, the partial sums for the two
  SUM-reductions.  Following section 4.2, \<open>allReduce\<close> returns the reduction of the
  local value with the values of the group.
\<close>

record comm_t =
  flag_peers :: "8 word list"
  numer_peers :: "nat \<Rightarrow> nat \<Rightarrow> real list"
  denom_peers :: "nat \<Rightarrow> nat \<Rightarrow> real list"

definition allReduce_max :: "8 word \<Rightarrow> 8 word list \<Rightarrow> 8 word" where
  "allReduce_max x peers = fold max peers x"

definition allReduce_sum :: "real \<Rightarrow> real list \<Rightarrow> real" where
  "allReduce_sum x peers = x + sum_list peers"

text \<open>The global dictionary \<open>config\<close>: \<open>comm = None\<close> when the key \<open>"comm"\<close> is
  absent.\<close>

record config =
  comm :: "comm_t option"

section \<open>The step\<close>

text \<open>The closure re-evaluates the model: it returns the loss and the gradient that
  each parameter, given by the position of its group and its position in the group, holds
  afterwards.\<close>

type_synonym 'l closure = "lamb \<Rightarrow> 'l \<times> (nat \<Rightarrow> nat \<Rightarrow> grad_t option)"

definition set_grads :: "(nat \<Rightarrow> nat \<Rightarrow> grad_t option) \<Rightarrow> lamb \<Rightarrow> lamb" where
  "set_grads G self =
     self\<lparr>param_groups :=
       map (\<lambda>(gi, g). g\<lparr>params := map (\<lambda>(pj, p). p\<lparr>grad := G gi pj\<rparr>)
                                         (enumerate 0 (params g))\<rparr>)
           (enumerate 0 (param_groups self))\<rparr>"

text \<open>Lines 60 to 63.\<close>

definition run_closure :: "'l closure option \<Rightarrow> lamb \<Rightarrow> 'l option \<times> lamb" where
  "run_closure closure self =
     (case closure of
        None \<Rightarrow> (None, self)
      | Some c \<Rightarrow> (case c self of (l, G) \<Rightarrow> (Some l, set_grads G self)))"

text \<open>Lines 66 to 70: the flag starts at zero and is handed to \<open>f_has_inf_nan\<close> for
  every defined gradient.\<close>

definition check_param :: "kernels \<Rightarrow> param \<Rightarrow> 8 word \<Rightarrow> 8 word" where
  "check_param K p flag =
     (case grad p of None \<Rightarrow> flag | Some g \<Rightarrow> f_has_inf_nan K g flag)"

definition check_overflow :: "kernels \<Rightarrow> lamb \<Rightarrow> 8 word" where
  "check_overflow K self =
     fold (\<lambda>g flag. fold (check_param K) (params g) flag) (param_groups self) 0"

text \<open>Lines 72 and 73: the MAX-reduction happens only when \<open>"comm"\<close> is configured.\<close>

definition has_inf_or_nan :: "kernels \<Rightarrow> config \<Rightarrow> lamb \<Rightarrow> 8 word" where
  "has_inf_or_nan K cfg self =
     (case comm cfg of
        None \<Rightarrow> check_overflow K self
      | Some c \<Rightarrow> allReduce_max (check_overflow K self) (flag_peers c))"

text \<open>Lines 89 to 100: lazy initialisation of the state, then \<open>state['step'] += 1\<close>.\<close>

definition init_state :: "param \<Rightarrow> pstate" where
  "init_state p =
     (case state p of
        None \<Rightarrow> \<lparr>state_step = 0,
                  exp_avg = replicate (length (data p)) 0,
                  exp_avg_sq = replicate (length (data p)) 0,
                  param_fp32 = data p\<rparr>
      | Some s \<Rightarrow> s)"

definition bump_step :: "param \<Rightarrow> pstate" where
  "bump_step p = (init_state p)\<lparr>state_step := state_step (init_state p) + 1\<rparr>"

text \<open>Line 104.\<close>

definition candidate_lr :: "lamb \<Rightarrow> param_group \<Rightarrow> pstate \<Rightarrow> real" where
  "candidate_lr self g s = (if state_step s \<le> hold_steps self then 0 else lr g)"

text \<open>The arguments shared by the two kernel calls (lines 105 to 118 and 124 to 136).\<close>

definition kernel_args :: "lamb \<Rightarrow> param_group \<Rightarrow> param \<Rightarrow> grad_t \<Rightarrow> pstate \<Rightarrow> real \<Rightarrow> kargs" where
  "kernel_args self g p gr s lr0 =
     \<lparr>k_param_fp32 = param_fp32 s, k_param_fp16 = data p, k_grad = gvals gr,
      k_m = exp_avg s, k_v = exp_avg_sq s,
      k_beta1 = fst (betas g), k_beta2 = snd (betas g), k_eps = eps g,
      k_lr = lr0, k_scale = scale self, k_weight_decay = weight_decay g,
      k_step = state_step s\<rparr>"

text \<open>Line 122: \<open>_lr * (numer[0] / (denom[0] + 1e-10)) ** 0.5\<close>.\<close>

definition trust_lr :: "real \<Rightarrow> real \<Rightarrow> real \<Rightarrow> real" where
  "trust_lr lr0 numer denom = lr0 * (numer / (denom + 1 / 10 ^ 10)) powr (1 / 2)"

text \<open>
  The body of the update loop for one parameter (lines 83 to 136).  An exception leaves
  the parameter as it is when the exception is raised: the lookup \<open>config["comm"]\<close> of
  line 120 comes after the state has been initialised and its step incremented.
\<close>

definition update_param ::
    "kernels \<Rightarrow> config \<Rightarrow> lamb \<Rightarrow> param_group \<Rightarrow> nat \<Rightarrow> nat \<Rightarrow> param \<Rightarrow> error option \<times> param" where
  "update_param K cfg self g gi pj p =
     (case grad p of
        None \<Rightarrow> (None, p)
      | Some gr \<Rightarrow>
          if is_sparse gr then (Some RuntimeError, p)
          else
            let s = bump_step p;
                lr0 = candidate_lr self g s;
                a = kernel_args self g p gr s lr0;
                (numer, denom) = f_lamb_prepare K a
            in (case comm cfg of
                  None \<Rightarrow> (Some KeyError, p\<lparr>state := Some s\<rparr>)
                | Some c \<Rightarrow>
                    let numer' = allReduce_sum numer (numer_peers c gi pj);
                        denom' = allReduce_sum denom (denom_peers c gi pj);
                        lr1 = trust_lr lr0 numer' denom';
                        (p32, p16, m, v) = f_adam K (a\<lparr>k_lr := lr1\<rparr>)
                    in (None, p\<lparr>data := p16,
                                state := Some (s\<lparr>param_fp32 := p32, exp_avg := m,
                                                 exp_avg_sq := v\<rparr>)\<rparr>)))"

text \<open>The inner loop (line 82): the parameters after a failing one are not visited.\<close>

fun update_params ::
    "kernels \<Rightarrow> config \<Rightarrow> lamb \<Rightarrow> param_group \<Rightarrow> nat \<Rightarrow> nat \<Rightarrow> param list
      \<Rightarrow> error option \<times> param list" where
  "update_params K cfg self g gi pj [] = (None, [])"
| "update_params K cfg self g gi pj (p # ps) =
     (case update_param K cfg self g gi pj p of
        (Some e, p') \<Rightarrow> (Some e, p' # ps)
      | (None, p') \<Rightarrow>
          (case update_params K cfg self g gi (Suc pj) ps of
             (e, ps') \<Rightarrow> (e, p' # ps')))"

text \<open>The outer loop (line 81).\<close>

fun update_groups ::
    "kernels \<Rightarrow> config \<Rightarrow> lamb \<Rightarrow> nat \<Rightarrow> param_group list \<Rightarrow> error option \<times> param_group list" where
  "update_groups K cfg self gi [] = (None, [])"
| "update_groups K cfg self gi (g # gs) =
     (case update_params K cfg self g gi 0 (params g) of
        (Some e, ps') \<Rightarrow> (Some e, g\<lparr>params := ps'\<rparr> # gs)
      | (None, ps') \<Rightarrow>
          (case update_groups K cfg self (Suc gi) gs of
             (e, gs') \<Rightarrow> (e, g\<lparr>params := ps'\<rparr> # gs')))"

text \<open>
  \<open>LambOptimizer.step\<close> (lines 52 to 138).  The result is the outcome, an exception or
  the returned loss, together with the optimizer as the call leaves it.
\<close>

definition step :: "kernels \<Rightarrow> config \<Rightarrow> 'l closure option \<Rightarrow> lamb \<Rightarrow> (error + 'l option) \<times> lamb" where
  "step K cfg closure self =
     (case run_closure closure self of
        (loss, self1) \<Rightarrow>
          if has_inf_or_nan K cfg self1 > 0 then (Inl OverflowError, self1)
          else
            let self2 = self1\<lparr>steps_since_last_scale := steps_since_last_scale self1 + 1\<rparr>
            in (case update_groups K cfg self2 0 (param_groups self2) of
                  (Some e, gs) \<Rightarrow> (Inl e, self2\<lparr>param_groups := gs\<rparr>)
                | (None, gs) \<Rightarrow> (Inr loss, self2\<lparr>param_groups := gs\<rparr>)))"

section \<open>The kernels of the specification\<close>

fun is_finite :: "fp \<Rightarrow> bool" where
  "is_finite (Finite r) = True"
| "is_finite PosInf = False"
| "is_finite NegInf = False"
| "is_finite NaN = False"

text \<open>Modelled from the spec: section 4.1, the flag is raised when some element of the
  gradient is infinite or not a number.\<close>

definition spec_has_inf_nan :: "grad_t \<Rightarrow> 8 word \<Rightarrow> 8 word" where
  "spec_has_inf_nan g flag = (if list_ex (\<lambda>x. \<not> is_finite x) (gvals g) then 1 else flag)"

text \<open>Modelled from the spec: section 4.4, step 5, the updated momentum and variance
  of the element at index \<open>i\<close>.\<close>

definition new_m :: "kargs \<Rightarrow> nat \<Rightarrow> real" where
  "new_m a i = k_beta1 a * (k_m a ! i) + (1 - k_beta1 a) * (fval (k_grad a ! i) / k_scale a)"

definition new_v :: "kargs \<Rightarrow> nat \<Rightarrow> real" where
  "new_v a i = k_beta2 a * (k_v a ! i) + (1 - k_beta2 a) * (fval (k_grad a ! i) / k_scale a)\<^sup>2"

text \<open>Modelled from the spec: section 4.4 leaves open how the update direction \<open>u\<close>
  combines momentum, variance and the decayed master value, so the combination \<open>dir\<close>
  is a parameter: it maps the arguments, the new momentum, the new variance and the
  master value of an element to the direction of that element.\<close>

definition direction :: "(kargs \<Rightarrow> real \<Rightarrow> real \<Rightarrow> real \<Rightarrow> real) \<Rightarrow> kargs \<Rightarrow> nat \<Rightarrow> real" where
  "direction dir a i = dir a (new_m a i) (new_v a i) (k_param_fp32 a ! i)"

text \<open>Modelled from the spec: section 4.4, step 5, the local partial sums, the squared
  norm of the master copy and the squared norm of the direction.\<close>

definition spec_lamb_prepare :: "(kargs \<Rightarrow> real \<Rightarrow> real \<Rightarrow> real \<Rightarrow> real) \<Rightarrow> kargs \<Rightarrow> real \<times> real" where
  "spec_lamb_prepare dir a =
     (let n = length (k_param_fp32 a)
      in (sum_list (map (\<lambda>i. (k_param_fp32 a ! i)\<^sup>2) [0..<n]),
          sum_list (map (\<lambda>i. (direction dir a i)\<^sup>2) [0..<n])))"

text \<open>Modelled from the spec: section 4.4, step 8, the apply phase: the master copy
  moves by \<open>- lr \<cdot> u\<close>, the working copy is the master copy cast down, and momentum and
  variance are written back.\<close>

definition spec_adam :: "(kargs \<Rightarrow> real \<Rightarrow> real \<Rightarrow> real \<Rightarrow> real) \<Rightarrow> kargs
    \<Rightarrow> tensor \<times> tensor \<times> tensor \<times> tensor" where
  "spec_adam dir a =
     (let n = length (k_param_fp32 a);
          master = map (\<lambda>i. k_param_fp32 a ! i - k_lr a * direction dir a i) [0..<n]
      in (master, master, map (new_m a) [0..<n], map (new_v a) [0..<n]))"

definition spec_kernels :: "(kargs \<Rightarrow> real \<Rightarrow> real \<Rightarrow> real \<Rightarrow> real) \<Rightarrow> kernels" where
  "spec_kernels dir =
     \<lparr>f_has_inf_nan = spec_has_inf_nan,
      f_lamb_prepare = spec_lamb_prepare dir,
      f_adam = spec_adam dir\<rparr>"

text \<open>Modelled from the spec: one reading of the "bias-corrected update direction
  combining momentum and variance with weight decay applied to master", the direction of
  the LAMB algorithm.\<close>

definition lamb_dir :: "kargs \<Rightarrow> real \<Rightarrow> real \<Rightarrow> real \<Rightarrow> real" where
  "lamb_dir a m v w =
     (m / (1 - k_beta1 a ^ nat (k_step a)))
       / (sqrt (v / (1 - k_beta2 a ^ nat (k_step a))) + k_eps a)
     + k_weight_decay a * w"

section \<open>Sequences of operations\<close>

text \<open>What a caller can do with a constructed optimizer.  An exception leaves the
  optimizer as the failing call left it, and the caller goes on.\<close>

datatype 'l op = Step config "'l closure option" | JustifyScale real

fun apply_op :: "kernels \<Rightarrow> 'l op \<Rightarrow> lamb \<Rightarrow> lamb" where
  "apply_op K (Step cfg closure) self = snd (step K cfg closure self)"
| "apply_op K (JustifyScale new_scale) self =
     (case justify_scale new_scale self of Inl e \<Rightarrow> self | Inr self' \<Rightarrow> self')"

definition run :: "kernels \<Rightarrow> 'l op list \<Rightarrow> lamb \<Rightarrow> lamb" where
  "run K ops self = fold (apply_op K) ops self"

fun positive_rescale :: "'l op \<Rightarrow> bool" where
  "positive_rescale (Step cfg closure) = True"
| "positive_rescale (JustifyScale new_scale) = (0 < new_scale)"

text \<open>Everything the optimizer holds for its parameters, apart from their gradients:
  for each group, the working values and the state of each parameter.\<close>

definition param_states :: "lamb \<Rightarrow> (tensor \<times> pstate option) list list" where
  "param_states self = map (\<lambda>g. map (\<lambda>p. (data p, state p)) (params g)) (param_groups self)"

section \<open>The scheduler of \<open>bmtrain/lr_scheduler/no_decay.py\<close>\<close>

text \<open>The two attributes of the scheduler that \<open>NoDecay\<close> reads.\<close>

record no_decay =
  start_lr :: real
  warmup_iter :: int

text \<open>\<open>NoDecay.get_lr_warmpup\<close> (line 8); the division raises when \<open>warmup_iter\<close>
  is zero.\<close>

definition get_lr_warmpup :: "no_decay \<Rightarrow> int \<Rightarrow> error + real" where
  "get_lr_warmpup self num_iter =
     (if warmup_iter self = 0 then Inl ZeroDivisionError
      else Inr (start_lr self * real_of_int num_iter / real_of_int (warmup_iter self)))"

text \<open>\<open>NoDecay.get_lr_decay\<close> (line 11).\<close>

definition get_lr_decay :: "no_decay \<Rightarrow> int \<Rightarrow> real" where
  "get_lr_decay self num_iter = start_lr self"

text \<open>Modelled from the spec: the base class \<open>WarmupLRScheduler\<close>, which chooses
  between the two curves, is not part of the sources.  Following section 6, the effective
  learning rate is the warmup curve of the subclass during the \<open>warmup_iter\<close> warmup
  iterations and its post-warmup policy from then on.\<close>

definition get_lr :: "no_decay \<Rightarrow> int \<Rightarrow> error + real" where
  "get_lr self num_iter =
     (if num_iter < warmup_iter self then get_lr_warmpup self num_iter
      else Inr (get_lr_decay self num_iter))"

section \<open>Reading a state, and concrete states\<close>

text \<open>The parameter at position \<open>pj\<close> of group \<open>gi\<close>.\<close>

definition param_at :: "lamb \<Rightarrow> nat \<Rightarrow> nat \<Rightarrow> param" where
  "param_at self gi pj = params (param_groups self ! gi) ! pj"

text \<open>A group of one worker, a group of two workers, and a group whose other worker
  reports an overflow.\<close>

definition empty_peers :: comm_t where
  "empty_peers = \<lparr>flag_peers = [], numer_peers = (\<lambda>gi pj. []), denom_peers = (\<lambda>gi pj. [])\<rparr>"

definition single_worker :: config where
  "single_worker = \<lparr>comm = Some empty_peers\<rparr>"

definition peers_of_two :: comm_t where
  "peers_of_two =
     \<lparr>flag_peers = [0], numer_peers = (\<lambda>gi pj. [5]), denom_peers = (\<lambda>gi pj. [3])\<rparr>"

definition two_workers :: config where
  "two_workers = \<lparr>comm = Some peers_of_two\<rparr>"

definition overflowing_peer :: config where
  "overflowing_peer =
     \<lparr>comm = Some \<lparr>flag_peers = [1], numer_peers = (\<lambda>gi pj. []), denom_peers = (\<lambda>gi pj. [])\<rparr>\<rparr>"

definition no_comm :: config where
  "no_comm = \<lparr>comm = None\<rparr>"

text \<open>Parameters of two elements: one never updated, with a dense finite gradient, one
  updated before, one with a sparse gradient, one whose gradient overflows, and one
  updated before whose working values were overwritten since.\<close>

definition fresh_param :: param where
  "fresh_param =
     \<lparr>data = [1, 2], grad = Some \<lparr>gvals = [Finite 3, Finite 4], is_sparse = False\<rparr>,
      state = None\<rparr>"

definition warm_param :: param where
  "warm_param =
     \<lparr>data = [1, 2], grad = Some \<lparr>gvals = [Finite 3, Finite 4], is_sparse = False\<rparr>,
      state = Some \<lparr>state_step = 1, exp_avg = [4, 8], exp_avg_sq = [2, 6], param_fp32 = [1, 2]\<rparr>\<rparr>"

definition sparse_param :: param where
  "sparse_param =
     \<lparr>data = [5, 6], grad = Some \<lparr>gvals = [Finite 1, Finite 0], is_sparse = True\<rparr>,
      state = None\<rparr>"

definition inf_param :: param where
  "inf_param =
     \<lparr>data = [1, 2], grad = Some \<lparr>gvals = [Finite 3, PosInf], is_sparse = False\<rparr>,
      state = None\<rparr>"


text \<open>An optimizer with the default hyperparameters of the constructor.\<close>

definition lamb_of :: "param list \<Rightarrow> int \<Rightarrow> lamb" where
  "lamb_of ps hold =
     \<lparr>param_groups = [\<lparr>params = ps, lr = 1 / 1000, betas = (9 / 10, 999 / 1000),
                        eps = 1 / 10 ^ 8, weight_decay = 0\<rparr>],
      scale = 65536, steps_since_last_scale = 0, hold_steps = hold\<rparr>"

text \<open>A closure that returns the loss 7 and leaves every gradient as it is.\<close>

definition same_grads :: "real closure" where
  "same_grads self = (7, \<lambda>gi pj. grad (param_at self gi pj))"

text \<open>A scheduler with ten warmup iterations.\<close>

definition ramp_of_ten :: no_decay where
  "ramp_of_ten = \<lparr>start_lr = 1 / 1000, warmup_iter = 10\<rparr>"

section \<open>Notions used to state the properties\<close>

text \<open>The first defined gradient of a list of parameters, and the parameters of an
  optimizer in the order in which the loops of \<open>step\<close> visit them.\<close>

fun first_grad :: "param list \<Rightarrow> grad_t option" where
  "first_grad [] = None"
| "first_grad (p # ps) = (case grad p of None \<Rightarrow> first_grad ps | Some gr \<Rightarrow> Some gr)"

definition all_params :: "lamb \<Rightarrow> param list" where
  "all_params self = concat (map params (param_groups self))"

text \<open>The local partial sums that the prepare phase produces for a parameter with the
  gradient \<open>gr\<close> (the call of lines 105 to 118).\<close>

definition local_sums :: "kernels \<Rightarrow> lamb \<Rightarrow> param_group \<Rightarrow> param \<Rightarrow> grad_t \<Rightarrow> real \<times> real" where
  "local_sums K self g p gr =
     f_lamb_prepare K (kernel_args self g p gr (bump_step p) (candidate_lr self g (bump_step p)))"

text \<open>The parameter as the apply phase leaves it when it runs with the learning rate
  \<open>lr1\<close> (the call of lines 124 to 136).\<close>

definition apply_adam :: "kernels \<Rightarrow> lamb \<Rightarrow> param_group \<Rightarrow> param \<Rightarrow> grad_t \<Rightarrow> real \<Rightarrow> param" where
  "apply_adam K self g p gr lr1 =
     (case f_adam K (kernel_args self g p gr (bump_step p) lr1) of
        (p32, p16, m, v) \<Rightarrow>
          p\<lparr>data := p16,
            state := Some ((bump_step p)\<lparr>param_fp32 := p32, exp_avg := m, exp_avg_sq := v\<rparr>)\<rparr>)"

section \<open>Rescaling: properties\<close>

lemma rescale_param_inverse:
  "d \<noteq> 0 \<Longrightarrow> rescale_param (1 / d) (rescale_param d p) = p"
  by (cases "state p") (simp_all add: rescale_param_def o_def)

lemma rescale_group_inverse:
  "d \<noteq> 0 \<Longrightarrow> rescale_group (1 / d) (rescale_group d g) = g"
  by (simp add: rescale_group_def o_def rescale_param_inverse)

lemma rescale_groups_inverse:
  "d \<noteq> 0 \<Longrightarrow> map (rescale_group (1 / d) \<circ> rescale_group d) gs = gs"
  by (induction gs) (simp_all add: rescale_group_inverse)

lemma justify_scale_effect:
  assumes "scale self \<noteq> 0"
  shows "\<exists>self1. justify_scale new_scale self = Inr self1
           \<and> scale self1 = new_scale
           \<and> steps_since_last_scale self1 = 0
           \<and> hold_steps self1 = hold_steps self
           \<and> length (param_groups self1) = length (param_groups self)
           \<and> (\<forall>gi < length (param_groups self).
                 length (params (param_groups self1 ! gi)) = length (params (param_groups self ! gi))
                 \<and> (\<forall>pj < length (params (param_groups self ! gi)).
                    data (param_at self1 gi pj) = data (param_at self gi pj)
                  \<and> grad (param_at self1 gi pj) = grad (param_at self gi pj)
                  \<and> state (param_at self1 gi pj) =
                      (case state (param_at self gi pj) of
                         None \<Rightarrow> None
                       | Some s \<Rightarrow>
                           Some (s\<lparr>exp_avg := map (\<lambda>x. x * (new_scale / scale self)) (exp_avg s),
                                   exp_avg_sq := map (\<lambda>x. x * (new_scale / scale self)) (exp_avg_sq s)\<rparr>))))"
  using assms
  by (auto simp: justify_scale_def Let_def param_at_def rescale_group_def rescale_param_def
           split: option.splits)

lemma justify_scale_back:
  assumes "scale self \<noteq> 0" and "k \<noteq> 0"
  shows "(case justify_scale (k * scale self) self of
            Inl e \<Rightarrow> Inl e
          | Inr self1 \<Rightarrow> justify_scale (scale self) self1)
         = Inr (self\<lparr>steps_since_last_scale := 0\<rparr>)"
proof -
  have d: "scale self / (k * scale self) = 1 / k" "k * scale self / scale self = k"
    using assms by simp_all
  show ?thesis
    using assms by (simp add: justify_scale_def Let_def d rescale_groups_inverse)
qed

text \<open>
  The claim C5, that \<open>justify_scale\<close> sets the scale factor and resets the counter
  in every state, fails: the constructor accepts the scale 0, and on the optimizer it
  returns \<open>justify_scale\<close> raises \<open>ZeroDivisionError\<close> and sets nothing.
\<close>

theorem rescale_zero_scale_counterexample:
  "init [fresh_param] (1 / 1000) (9 / 10, 999 / 1000) (1 / 10 ^ 8) 0 0 0
     = Inr ((lamb_of [fresh_param] 0)\<lparr>scale := 0\<rparr>)
   \<and> justify_scale 32768 ((lamb_of [fresh_param] 0)\<lparr>scale := 0\<rparr>) = Inl ZeroDivisionError"
  by (simp add: init_def lamb_of_def justify_scale_def)

text \<open>
  C5, amended.  On an optimizer whose scale factor is not zero, \<open>justify_scale\<close> succeeds, sets
  the scale factor to the new value, resets \<open>steps_since_last_scale\<close> to 0, keeps the
  shape of the groups, the working values and the gradients, leaves the parameters without
  state alone and multiplies the momentum and the variance of every initialised parameter
  by the new factor divided by the old one.  Consequently, for every \<open>k \<noteq> 0\<close>, rescaling
  to \<open>k\<close> times the current factor and then back to the current factor gives back the
  optimizer it started from, with every momentum and variance at its value before the
  two calls, and \<open>steps_since_last_scale\<close> at 0.  Arithmetic is exact.
\<close>

theorem justify_scale_round_trip:
  assumes "scale self \<noteq> 0"
  shows "(\<exists>self1. justify_scale new_scale self = Inr self1
           \<and> scale self1 = new_scale
           \<and> steps_since_last_scale self1 = 0
           \<and> hold_steps self1 = hold_steps self
           \<and> length (param_groups self1) = length (param_groups self)
           \<and> (\<forall>gi < length (param_groups self).
                 length (params (param_groups self1 ! gi)) = length (params (param_groups self ! gi))
                 \<and> (\<forall>pj < length (params (param_groups self ! gi)).
                    data (param_at self1 gi pj) = data (param_at self gi pj)
                  \<and> grad (param_at self1 gi pj) = grad (param_at self gi pj)
                  \<and> state (param_at self1 gi pj) =
                      (case state (param_at self gi pj) of
                         None \<Rightarrow> None
                       | Some s \<Rightarrow>
                           Some (s\<lparr>exp_avg := map (\<lambda>x. x * (new_scale / scale self)) (exp_avg s),
                                   exp_avg_sq := map (\<lambda>x. x * (new_scale / scale self)) (exp_avg_sq s)\<rparr>)))))
       \<and> (k \<noteq> 0 \<longrightarrow>
            (case justify_scale (k * scale self) self of
               Inl e \<Rightarrow> Inl e
             | Inr self1 \<Rightarrow> justify_scale (scale self) self1)
            = Inr (self\<lparr>steps_since_last_scale := 0\<rparr>))"
  using justify_scale_effect [OF assms] justify_scale_back [OF assms] by blast

theorem justify_scale_round_trip_witness:
  "scale (lamb_of [warm_param, fresh_param] 0) \<noteq> 0
   \<and> justify_scale 32768 (lamb_of [warm_param, fresh_param] 0)
       = Inr ((lamb_of [warm_param\<lparr>state := Some \<lparr>state_step = 1, exp_avg = [2, 4],
                                                   exp_avg_sq = [1, 3], param_fp32 = [1, 2]\<rparr>\<rparr>,
                        fresh_param] 0) \<lparr>scale := 32768\<rparr>)
   \<and> (case justify_scale (3 * 65536) (lamb_of [warm_param, fresh_param] 0) of
         Inl e \<Rightarrow> Inl e
       | Inr self1 \<Rightarrow> justify_scale 65536 self1)
       = Inr (lamb_of [warm_param, fresh_param] 0)"
proof -
  have h: "scale (lamb_of [warm_param, fresh_param] 0) \<noteq> 0"
    by (simp add: lamb_of_def)
  have r: "justify_scale 32768 (lamb_of [warm_param, fresh_param] 0)
       = Inr ((lamb_of [warm_param\<lparr>state := Some \<lparr>state_step = 1, exp_avg = [2, 4],
                                                   exp_avg_sq = [1, 3], param_fp32 = [1, 2]\<rparr>\<rparr>,
                        fresh_param] 0) \<lparr>scale := 32768\<rparr>)"
    by (simp add: justify_scale_def lamb_of_def rescale_group_def rescale_param_def
          warm_param_def fresh_param_def)
  have s: "scale (lamb_of [warm_param, fresh_param] 0) = 65536"
       "(lamb_of [warm_param, fresh_param] 0)\<lparr>steps_since_last_scale := 0\<rparr>
          = lamb_of [warm_param, fresh_param] 0"
    by (simp_all add: lamb_of_def)
  have b: "(case justify_scale (3 * scale (lamb_of [warm_param, fresh_param] 0))
                   (lamb_of [warm_param, fresh_param] 0) of
              Inl e \<Rightarrow> Inl e
            | Inr self1 \<Rightarrow> justify_scale (scale (lamb_of [warm_param, fresh_param] 0)) self1)
           = Inr ((lamb_of [warm_param, fresh_param] 0)\<lparr>steps_since_last_scale := 0\<rparr>)"
    using justify_scale_round_trip [OF h, of 32768 3, THEN conjunct2] by simp
  show ?thesis
    using h r b unfolding s by (intro conjI)
qed

section \<open>The step: properties\<close>

lemma map_enumerate_snd: "map (\<lambda>x. f (snd x)) (enumerate n xs) = map f xs"
  by (induction xs arbitrary: n) simp_all

lemma set_grads_fields [simp]:
  "scale (set_grads G self) = scale self"
  "steps_since_last_scale (set_grads G self) = steps_since_last_scale self"
  "hold_steps (set_grads G self) = hold_steps self"
  by (simp_all add: set_grads_def)

lemma set_grads_param_states [simp]: "param_states (set_grads G self) = param_states self"
proof -
  have "map (\<lambda>x. map (\<lambda>y. (data (snd y), state (snd y))) (enumerate 0 (params (snd x))))
          (enumerate 0 (param_groups self))
        = map (\<lambda>g. map (\<lambda>p. (data p, state p)) (params g)) (param_groups self)"
    by (simp only: map_enumerate_snd [of "\<lambda>p. (data p, state p)"]
          map_enumerate_snd [of "\<lambda>g. map (\<lambda>p. (data p, state p)) (params g)"])
  then show ?thesis
    by (simp add: set_grads_def param_states_def o_def case_prod_unfold)
qed

lemma run_closure_fields [simp]:
  "scale (snd (run_closure closure self)) = scale self"
  "steps_since_last_scale (snd (run_closure closure self)) = steps_since_last_scale self"
  "hold_steps (snd (run_closure closure self)) = hold_steps self"
  "param_states (snd (run_closure closure self)) = param_states self"
  by (simp_all add: run_closure_def split: option.splits prod.splits)

lemma run_closure_None [simp]: "run_closure None self = (None, self)"
  by (simp add: run_closure_def)

lemma fst_run_closure: "fst (run_closure closure self) = map_option (\<lambda>c. fst (c self)) closure"
  by (simp add: run_closure_def split: option.splits prod.splits)

text \<open>
  C1.  When the overflow flag that the step tests (the local flag, MAX-reduced with the
  flags of the group when a communicator is configured) is not zero, \<open>step\<close> raises
  \<open>OverflowError\<close> and leaves the optimizer as the closure left it: the scale factor,
  \<open>steps_since_last_scale\<close>, and the working values and the state (step, momentum,
  variance, master copy) of every parameter are those before the call; without a closure
  the optimizer is unchanged altogether.
\<close>

theorem overflow_aborts_unchanged:
  assumes "0 < has_inf_or_nan K cfg (snd (run_closure closure self))"
  shows "step K cfg closure self = (Inl OverflowError, snd (run_closure closure self))
       \<and> scale (snd (step K cfg closure self)) = scale self
       \<and> steps_since_last_scale (snd (step K cfg closure self)) = steps_since_last_scale self
       \<and> param_states (snd (step K cfg closure self)) = param_states self
       \<and> (closure = None \<longrightarrow> snd (step K cfg closure self) = self)"
proof -
  have "step K cfg closure self = (Inl OverflowError, snd (run_closure closure self))"
    using assms by (cases "run_closure closure self") (simp add: step_def)
  then show ?thesis by auto
qed

theorem overflow_aborts_unchanged_witness:
  "0 < has_inf_or_nan (spec_kernels lamb_dir) overflowing_peer
         (snd (run_closure (None :: real closure option) (lamb_of [fresh_param] 0)))
   \<and> step (spec_kernels lamb_dir) overflowing_peer (None :: real closure option)
         (lamb_of [fresh_param] 0)
       = (Inl OverflowError, lamb_of [fresh_param] 0)"
proof -
  have h: "0 < has_inf_or_nan (spec_kernels lamb_dir) overflowing_peer
         (snd (run_closure (None :: real closure option) (lamb_of [fresh_param] 0)))"
    by (simp add: has_inf_or_nan_def overflowing_peer_def check_overflow_def check_param_def
          lamb_of_def fresh_param_def spec_kernels_def spec_has_inf_nan_def allReduce_max_def)
  show ?thesis
    using h overflow_aborts_unchanged [OF h] by simp
qed

lemmas ex_defs = lamb_of_def fresh_param_def warm_param_def sparse_param_def inf_param_def
  single_worker_def empty_peers_def two_workers_def peers_of_two_def overflowing_peer_def
  no_comm_def

lemmas step_defs = step_def has_inf_or_nan_def check_overflow_def check_param_def
  allReduce_max_def update_param_def Let_def bump_step_def init_state_def
  spec_kernels_def spec_has_inf_nan_def candidate_lr_def

section \<open>The update loops\<close>

text \<open>
  The loops visit the parameters in order and stop at the first exception: a run without
  exception has updated every parameter, a run with an exception has updated the
  parameters before the failing one and has left the ones after it alone.
\<close>

lemma update_params_length: "length (snd (update_params K cfg self g gi pj ps)) = length ps"
  by (induction ps arbitrary: pj) (auto split: prod.splits option.splits, metis snd_conv)

lemma update_groups_length: "length (snd (update_groups K cfg self gi gs)) = length gs"
  by (induction gs arbitrary: gi) (auto split: prod.splits option.splits, metis snd_conv)

lemma update_params_ok:
  "update_params K cfg self g gi pj ps = (None, ps') \<Longrightarrow> i < length ps \<Longrightarrow>
     update_param K cfg self g gi (pj + i) (ps ! i) = (None, ps' ! i)"
proof (induction ps arbitrary: pj ps' i)
  case Nil
  then show ?case by simp
next
  case (Cons p ps)
  obtain e p' where p: "update_param K cfg self g gi pj p = (e, p')"
    by (cases "update_param K cfg self g gi pj p")
  obtain e' qs where q: "update_params K cfg self g gi (Suc pj) ps = (e', qs)"
    by (cases "update_params K cfg self g gi (Suc pj) ps")
  from Cons.prems(1) p q have e: "e = None" "e' = None" "ps' = p' # qs"
    by (auto split: option.splits)
  show ?case
  proof (cases i)
    case 0
    then show ?thesis using p e by simp
  next
    case (Suc k)
    then have "update_param K cfg self g gi (Suc pj + k) (ps ! k) = (None, qs ! k)"
      using Cons.IH [of "Suc pj" qs k] q e Cons.prems(2) by simp
    then show ?thesis using Suc e by simp
  qed
qed

lemma update_params_err:
  "update_params K cfg self g gi pj ps = (Some e, ps') \<Longrightarrow>
     \<exists>k < length ps.
        update_param K cfg self g gi (pj + k) (ps ! k) = (Some e, ps' ! k)
      \<and> (\<forall>i < k. update_param K cfg self g gi (pj + i) (ps ! i) = (None, ps' ! i))
      \<and> (\<forall>i. k < i \<and> i < length ps \<longrightarrow> ps' ! i = ps ! i)"
proof (induction ps arbitrary: pj ps')
  case Nil
  then show ?case by simp
next
  case (Cons p ps)
  obtain e0 p' where p: "update_param K cfg self g gi pj p = (e0, p')"
    by (cases "update_param K cfg self g gi pj p")
  show ?case
  proof (cases e0)
    case (Some x)
    with Cons.prems p have "x = e" "ps' = p' # ps" by auto
    with p Some have "update_param K cfg self g gi (pj + 0) ((p # ps) ! 0) = (Some e, ps' ! 0)
        \<and> (\<forall>i < 0. update_param K cfg self g gi (pj + i) ((p # ps) ! i) = (None, ps' ! i))
        \<and> (\<forall>i. 0 < i \<and> i < length (p # ps) \<longrightarrow> ps' ! i = (p # ps) ! i)"
      by (auto simp: nth_Cons split: nat.splits)
    then show ?thesis by blast
  next
    case None
    obtain e' qs where q: "update_params K cfg self g gi (Suc pj) ps = (e', qs)"
      by (cases "update_params K cfg self g gi (Suc pj) ps")
    from Cons.prems p q None have e: "e' = Some e" "ps' = p' # qs" by auto
    from Cons.IH [of "Suc pj" qs] q e obtain k where k: "k < length ps"
        "update_param K cfg self g gi (Suc pj + k) (ps ! k) = (Some e, qs ! k)"
        "\<forall>i < k. update_param K cfg self g gi (Suc pj + i) (ps ! i) = (None, qs ! i)"
        "\<forall>i. k < i \<and> i < length ps \<longrightarrow> qs ! i = ps ! i"
      by auto
    have "Suc k < length (p # ps)
        \<and> update_param K cfg self g gi (pj + Suc k) ((p # ps) ! Suc k) = (Some e, ps' ! Suc k)
        \<and> (\<forall>i < Suc k. update_param K cfg self g gi (pj + i) ((p # ps) ! i) = (None, ps' ! i))
        \<and> (\<forall>i. Suc k < i \<and> i < length (p # ps) \<longrightarrow> ps' ! i = (p # ps) ! i)"
      using k e p None by (auto simp: nth_Cons split: nat.splits)
    then show ?thesis by blast
  qed
qed

lemma update_groups_ok:
  "update_groups K cfg self gi gs = (None, gs') \<Longrightarrow> i < length gs \<Longrightarrow>
     \<exists>ps'. update_params K cfg self (gs ! i) (gi + i) 0 (params (gs ! i)) = (None, ps')
          \<and> gs' ! i = (gs ! i)\<lparr>params := ps'\<rparr>"
proof (induction gs arbitrary: gi gs' i)
  case Nil
  then show ?case by simp
next
  case (Cons g gs)
  obtain e ps' where p: "update_params K cfg self g gi 0 (params g) = (e, ps')"
    by (cases "update_params K cfg self g gi 0 (params g)")
  obtain e' hs where q: "update_groups K cfg self (Suc gi) gs = (e', hs)"
    by (cases "update_groups K cfg self (Suc gi) gs")
  from Cons.prems(1) p q have e: "e = None" "e' = None" "gs' = g\<lparr>params := ps'\<rparr> # hs"
    by (auto split: option.splits)
  show ?case
  proof (cases i)
    case 0
    then show ?thesis using p e by simp
  next
    case (Suc k)
    then have "\<exists>ps'. update_params K cfg self (gs ! k) (Suc gi + k) 0 (params (gs ! k)) = (None, ps')
          \<and> hs ! k = (gs ! k)\<lparr>params := ps'\<rparr>"
      using Cons.IH [of "Suc gi" hs k] q e Cons.prems(2) by simp
    then show ?thesis using Suc e by simp
  qed
qed

lemma update_groups_err:
  "update_groups K cfg self gi gs = (Some e, gs') \<Longrightarrow>
     \<exists>k < length gs.
        (\<exists>ps'. update_params K cfg self (gs ! k) (gi + k) 0 (params (gs ! k)) = (Some e, ps')
              \<and> gs' ! k = (gs ! k)\<lparr>params := ps'\<rparr>)
      \<and> (\<forall>i < k. \<exists>ps'. update_params K cfg self (gs ! i) (gi + i) 0 (params (gs ! i)) = (None, ps')
              \<and> gs' ! i = (gs ! i)\<lparr>params := ps'\<rparr>)
      \<and> (\<forall>i. k < i \<and> i < length gs \<longrightarrow> gs' ! i = gs ! i)"
proof (induction gs arbitrary: gi gs')
  case Nil
  then show ?case by simp
next
  case (Cons g gs)
  obtain e0 ps' where p: "update_params K cfg self g gi 0 (params g) = (e0, ps')"
    by (cases "update_params K cfg self g gi 0 (params g)")
  show ?case
  proof (cases e0)
    case (Some x)
    with Cons.prems p have "x = e" "gs' = g\<lparr>params := ps'\<rparr> # gs" by auto
    with p Some have "(\<exists>ps'. update_params K cfg self ((g # gs) ! 0) (gi + 0) 0 (params ((g # gs) ! 0)) = (Some e, ps')
              \<and> gs' ! 0 = ((g # gs) ! 0)\<lparr>params := ps'\<rparr>)
        \<and> (\<forall>i < 0. \<exists>ps'. update_params K cfg self ((g # gs) ! i) (gi + i) 0 (params ((g # gs) ! i)) = (None, ps')
              \<and> gs' ! i = ((g # gs) ! i)\<lparr>params := ps'\<rparr>)
        \<and> (\<forall>i. 0 < i \<and> i < length (g # gs) \<longrightarrow> gs' ! i = (g # gs) ! i)"
      by (auto simp: nth_Cons split: nat.splits)
    then show ?thesis by blast
  next
    case None
    obtain e' hs where q: "update_groups K cfg self (Suc gi) gs = (e', hs)"
      by (cases "update_groups K cfg self (Suc gi) gs")
    from Cons.prems p q None have e: "e' = Some e" "gs' = g\<lparr>params := ps'\<rparr> # hs" by auto
    from Cons.IH [of "Suc gi" hs] q e obtain k where k: "k < length gs"
        "\<exists>ps'. update_params K cfg self (gs ! k) (Suc gi + k) 0 (params (gs ! k)) = (Some e, ps')
              \<and> hs ! k = (gs ! k)\<lparr>params := ps'\<rparr>"
        "\<forall>i < k. \<exists>ps'. update_params K cfg self (gs ! i) (Suc gi + i) 0 (params (gs ! i)) = (None, ps')
              \<and> hs ! i = (gs ! i)\<lparr>params := ps'\<rparr>"
        "\<forall>i. k < i \<and> i < length gs \<longrightarrow> hs ! i = gs ! i"
      by auto
    have "Suc k < length (g # gs)
        \<and> (\<exists>ps'. update_params K cfg self ((g # gs) ! Suc k) (gi + Suc k) 0 (params ((g # gs) ! Suc k)) = (Some e, ps')
              \<and> gs' ! Suc k = ((g # gs) ! Suc k)\<lparr>params := ps'\<rparr>)
        \<and> (\<forall>i < Suc k. \<exists>ps'. update_params K cfg self ((g # gs) ! i) (gi + i) 0 (params ((g # gs) ! i)) = (None, ps')
              \<and> gs' ! i = ((g # gs) ! i)\<lparr>params := ps'\<rparr>)
        \<and> (\<forall>i. Suc k < i \<and> i < length (g # gs) \<longrightarrow> gs' ! i = (g # gs) ! i)"
      using k e p None by (auto simp: nth_Cons split: nat.splits)
    then show ?thesis by blast
  qed
qed

lemma update_param_self [simp]:
  "update_param K cfg (self\<lparr>steps_since_last_scale := n\<rparr>) g gi pj p = update_param K cfg self g gi pj p"
  by (simp add: update_param_def candidate_lr_def kernel_args_def
        cong: option.case_cong if_cong)

lemma update_params_self [simp]:
  "update_params K cfg (self\<lparr>steps_since_last_scale := n\<rparr>) g gi pj ps = update_params K cfg self g gi pj ps"
  by (induction ps arbitrary: pj) (simp_all cong: prod.case_cong option.case_cong)

lemma update_groups_self [simp]:
  "update_groups K cfg (self\<lparr>steps_since_last_scale := n\<rparr>) gi gs = update_groups K cfg self gi gs"
  by (induction gs arbitrary: gi) (simp_all cong: prod.case_cong option.case_cong)

lemma kernel_args_lr [simp]:
  "(kernel_args self g p gr s lr0)\<lparr>k_lr := lr1\<rparr> = kernel_args self g p gr s lr1"
  by (simp add: kernel_args_def)

lemma update_param_comm:
  assumes "comm cfg = Some c"
  shows "update_param K cfg self g gi pj p =
     (case grad p of
        None \<Rightarrow> (None, p)
      | Some gr \<Rightarrow>
          if is_sparse gr then (Some RuntimeError, p)
          else (None, apply_adam K self g p gr
                  (trust_lr (candidate_lr self g (bump_step p))
                     (allReduce_sum (fst (local_sums K self g p gr)) (numer_peers c gi pj))
                     (allReduce_sum (snd (local_sums K self g p gr)) (denom_peers c gi pj)))))"
  using assms
  by (simp add: update_param_def Let_def apply_adam_def local_sums_def
           split: option.splits prod.splits)


lemma update_param_errors:
  "fst (update_param K cfg self g gi pj p) \<in> {None, Some RuntimeError, Some KeyError}"
  by (simp add: update_param_def Let_def split: option.splits prod.splits)

lemma update_params_errors:
  "fst (update_params K cfg self g gi pj ps) \<in> {None, Some RuntimeError, Some KeyError}"
proof (induction ps arbitrary: pj)
  case Nil
  then show ?case by simp
next
  case (Cons p ps)
  show ?case
    using update_param_errors [of K cfg self g gi pj p] Cons.IH [of "Suc pj"]
    by (cases "update_param K cfg self g gi pj p"; cases "update_params K cfg self g gi (Suc pj) ps")
       (auto split: option.splits)
qed

lemma update_groups_errors:
  "fst (update_groups K cfg self gi gs) \<in> {None, Some RuntimeError, Some KeyError}"
proof (induction gs arbitrary: gi)
  case Nil
  then show ?case by simp
next
  case (Cons g gs)
  show ?case
    using update_params_errors [of K cfg self g gi 0 "params g"] Cons.IH [of "Suc gi"]
    by (cases "update_params K cfg self g gi 0 (params g)"; cases "update_groups K cfg self (Suc gi) gs")
       (auto split: option.splits)
qed

text \<open>
  What a step that has passed the overflow check does.
\<close>

lemma step_unfold:
  assumes "\<not> 0 < has_inf_or_nan K cfg (snd (run_closure closure self))"
  shows "step K cfg closure self =
     (case update_groups K cfg (snd (run_closure closure self)) 0
             (param_groups (snd (run_closure closure self))) of
        (e, gs) \<Rightarrow>
          (case e of None \<Rightarrow> Inr (fst (run_closure closure self)) | Some x \<Rightarrow> Inl x,
           (snd (run_closure closure self))
             \<lparr>steps_since_last_scale := steps_since_last_scale self + 1,
              param_groups := gs\<rparr>))"
proof -
  obtain l s1 where r: "run_closure closure self = (l, s1)"
    by (cases "run_closure closure self")
  have "steps_since_last_scale s1 = steps_since_last_scale self"
    using run_closure_fields(2) [of closure self] r by simp
  then show ?thesis
    using assms r by (auto simp: step_def Let_def split: prod.splits option.splits)
qed

lemma fst_step:
  "fst (step K cfg closure self) =
     (if 0 < has_inf_or_nan K cfg (snd (run_closure closure self)) then Inl OverflowError
      else case fst (update_groups K cfg (snd (run_closure closure self)) 0
                       (param_groups (snd (run_closure closure self)))) of
             None \<Rightarrow> Inr (fst (run_closure closure self))
           | Some e \<Rightarrow> Inl e)"
  by (cases "run_closure closure self")
     (auto simp: step_def Let_def split: prod.splits option.splits)

lemma step_success:
  assumes ok: "step K cfg closure self = (Inr loss, self')"
  shows "\<not> 0 < has_inf_or_nan K cfg (snd (run_closure closure self))"
    and "loss = fst (run_closure closure self)"
    and "update_groups K cfg (snd (run_closure closure self)) 0
             (param_groups (snd (run_closure closure self))) = (None, param_groups self')"
proof -
  show f: "\<not> 0 < has_inf_or_nan K cfg (snd (run_closure closure self))"
    using ok by (cases "run_closure closure self") (auto simp: step_def)
  show "loss = fst (run_closure closure self)"
    using ok unfolding step_unfold [OF f] by (auto split: prod.splits option.splits)
  show "update_groups K cfg (snd (run_closure closure self)) 0
             (param_groups (snd (run_closure closure self))) = (None, param_groups self')"
    using ok unfolding step_unfold [OF f] by (auto split: prod.splits option.splits)
qed

lemma step_success_param:
  assumes ok: "step K cfg closure self = (Inr loss, self')"
    and gi: "gi < length (param_groups (snd (run_closure closure self)))"
    and pj: "pj < length (params (param_groups (snd (run_closure closure self)) ! gi))"
  shows "update_param K cfg (snd (run_closure closure self))
           (param_groups (snd (run_closure closure self)) ! gi) gi pj
           (param_at (snd (run_closure closure self)) gi pj) = (None, param_at self' gi pj)"
proof -
  let ?s = "snd (run_closure closure self)"
  from update_groups_ok [OF step_success(3) [OF ok] gi]
  obtain ps' where ps: "update_params K cfg ?s (param_groups ?s ! gi) gi 0 (params (param_groups ?s ! gi)) = (None, ps')"
      "param_groups self' ! gi = (param_groups ?s ! gi)\<lparr>params := ps'\<rparr>"
    by auto
  from update_params_ok [OF ps(1) pj] ps(2) show ?thesis
    by (simp add: param_at_def)
qed

lemma scale_step [simp]: "scale (snd (step K cfg closure self)) = scale self"
proof -
  obtain l s1 where r: "run_closure closure self = (l, s1)"
    by (cases "run_closure closure self")
  have "scale s1 = scale self"
    using run_closure_fields(1) [of closure self] r by simp
  then show ?thesis
    using r by (auto simp: step_def Let_def split: prod.splits option.splits)
qed

section \<open>The effective learning rate\<close>

lemma trust_lr_sqrt:
  assumes "0 \<le> numer" and "0 \<le> denom"
  shows "trust_lr lr0 numer denom = lr0 * sqrt (numer / (denom + 1 / 10 ^ 10))"
proof -
  have "0 \<le> numer / (denom + 1 / 10 ^ 10)"
    using assms by simp
  then show ?thesis
    by (simp add: trust_lr_def powr_half_sqrt)
qed

lemma spec_lamb_prepare_nonneg:
  "0 \<le> fst (spec_lamb_prepare dir a)" "0 \<le> snd (spec_lamb_prepare dir a)"
  by (auto simp: spec_lamb_prepare_def Let_def intro!: sum_list_nonneg)

lemma local_sums_spec_nonneg:
  "0 \<le> fst (local_sums (spec_kernels dir) self g p gr)"
  "0 \<le> snd (local_sums (spec_kernels dir) self g p gr)"
  by (simp_all add: local_sums_def spec_kernels_def spec_lamb_prepare_nonneg)

text \<open>
  C3.  In a step that returns, take a parameter with a defined gradient, and let the
  numerator and the denominator be the SUM-reductions over the group of the two local
  partial sums that the prepare phase produces for it; both are meant to be sums of
  squares and are taken to be not negative.  Then the parameter is left as the apply phase leaves it when run with
  the learning rate \<open>candidate * sqrt (numerator / (denominator + 1e-10))\<close>, where the
  candidate is 0 when the incremented step of the parameter is at most \<open>hold_steps\<close>
  and the learning rate of the group otherwise.  Arithmetic is exact.
\<close>

theorem effective_learning_rate:
  fixes K cfg closure self gi pj gr c
  defines "self1 \<equiv> snd (run_closure closure self)"
  defines "self' \<equiv> snd (step K cfg closure self)"
  defines "g \<equiv> param_groups self1 ! gi"
  defines "p \<equiv> param_at self1 gi pj"
  defines "candidate \<equiv> (if state_step (bump_step p) \<le> hold_steps self then 0 else lr g)"
  defines "numerator \<equiv> allReduce_sum (fst (local_sums K self1 g p gr)) (numer_peers c gi pj)"
  defines "denominator \<equiv> allReduce_sum (snd (local_sums K self1 g p gr)) (denom_peers c gi pj)"
  assumes ok: "fst (step K cfg closure self) = Inr loss"
    and c: "comm cfg = Some c"
    and gi: "gi < length (param_groups self1)"
    and pj: "pj < length (params g)"
    and gr: "grad p = Some gr"
    and n: "0 \<le> numerator" and d: "0 \<le> denominator"
  shows "param_at self' gi pj =
           apply_adam K self1 g p gr (candidate * sqrt (numerator / (denominator + 1 / 10 ^ 10)))"
proof -
  have st: "step K cfg closure self = (Inr loss, self')"
    using ok unfolding self'_def by (simp add: prod_eq_iff)
  have u: "update_param K cfg self1 g gi pj p = (None, param_at self' gi pj)"
    using step_success_param [OF st] gi pj unfolding self1_def g_def p_def by simp
  have cand: "candidate_lr self1 g (bump_step p) = candidate"
    by (simp add: candidate_lr_def candidate_def self1_def)
  have sparse: "\<not> is_sparse gr"
    using u gr unfolding update_param_comm [OF c] by (auto split: if_splits)
  have "param_at self' gi pj = apply_adam K self1 g p gr (trust_lr candidate numerator denominator)"
    using u gr sparse unfolding update_param_comm [OF c] cand
    by (simp add: numerator_def denominator_def)
  then show ?thesis
    by (simp add: trust_lr_sqrt [OF n d])
qed

theorem effective_learning_rate_witness:
  "fst (step (spec_kernels lamb_dir) two_workers (None :: real closure option)
          (lamb_of [fresh_param] 0)) = Inr None
   \<and> param_at (snd (step (spec_kernels lamb_dir) two_workers (None :: real closure option)
          (lamb_of [fresh_param] 0))) 0 0
     = apply_adam (spec_kernels lamb_dir) (lamb_of [fresh_param] 0)
         (param_groups (lamb_of [fresh_param] 0) ! 0) fresh_param
         \<lparr>gvals = [Finite 3, Finite 4], is_sparse = False\<rparr>
         (1 / 1000 * sqrt (10 /
            (snd (local_sums (spec_kernels lamb_dir) (lamb_of [fresh_param] 0)
                   (param_groups (lamb_of [fresh_param] 0) ! 0) fresh_param
                   \<lparr>gvals = [Finite 3, Finite 4], is_sparse = False\<rparr>) + 3 + 1 / 10 ^ 10)))"
proof -
  let ?K = "spec_kernels lamb_dir"
  let ?s = "lamb_of [fresh_param] 0"
  let ?gr = "\<lparr>gvals = [Finite 3, Finite 4], is_sparse = False\<rparr>"
  have ok: "fst (step ?K two_workers (None :: real closure option) ?s) = Inr None"
    by (simp add: ex_defs step_defs two_workers_def split: prod.splits)
  have c: "comm two_workers = Some peers_of_two"
    by (simp add: two_workers_def peers_of_two_def)
  have gi: "0 < length (param_groups (snd (run_closure (None :: real closure option) ?s)))"
    by (simp add: lamb_of_def)
  have pj: "0 < length (params (param_groups (snd (run_closure (None :: real closure option) ?s)) ! 0))"
    by (simp add: lamb_of_def)
  have gr: "grad (param_at (snd (run_closure (None :: real closure option) ?s)) 0 0) = Some ?gr"
    by (simp add: lamb_of_def param_at_def fresh_param_def)
  have p: "param_at ?s 0 0 = fresh_param"
    by (simp add: lamb_of_def param_at_def)
  have n: "0 \<le> allReduce_sum (fst (local_sums ?K (snd (run_closure (None :: real closure option) ?s))
              (param_groups (snd (run_closure (None :: real closure option) ?s)) ! 0)
              (param_at (snd (run_closure (None :: real closure option) ?s)) 0 0) ?gr))
            (numer_peers peers_of_two 0 0)"
    using local_sums_spec_nonneg(1) [of lamb_dir ?s "param_groups ?s ! 0" "param_at ?s 0 0" ?gr]
    by (simp add: allReduce_sum_def peers_of_two_def)
  have d: "0 \<le> allReduce_sum (snd (local_sums ?K (snd (run_closure (None :: real closure option) ?s))
              (param_groups (snd (run_closure (None :: real closure option) ?s)) ! 0)
              (param_at (snd (run_closure (None :: real closure option) ?s)) 0 0) ?gr))
            (denom_peers peers_of_two 0 0)"
    using local_sums_spec_nonneg(2) [of lamb_dir ?s "param_groups ?s ! 0" "param_at ?s 0 0" ?gr]
    by (simp add: allReduce_sum_def peers_of_two_def)
  have num: "fst (local_sums ?K ?s (param_groups ?s ! 0) fresh_param ?gr) = 5"
    by (simp add: local_sums_def spec_kernels_def spec_lamb_prepare_def Let_def kernel_args_def
          bump_step_def init_state_def fresh_param_def)
  have cand: "state_step (bump_step fresh_param) = 1" "hold_steps ?s = 0" "lr (param_groups ?s ! 0) = 1 / 1000"
    by (simp_all add: bump_step_def init_state_def fresh_param_def lamb_of_def)
  show ?thesis
    using ok effective_learning_rate [OF ok c gi pj gr n d]
    by (simp add: p num cand allReduce_sum_def peers_of_two_def)
qed

section \<open>The hold window\<close>

lemma trust_lr_zero [simp]: "trust_lr 0 numer denom = 0"
  by (simp add: trust_lr_def)






section \<open>Sparse gradients\<close>

lemma update_param_error_comm:
  assumes "comm cfg = Some c" and "update_param K cfg self g gi pj p = (Some e, p')"
  shows "e = RuntimeError \<and> p' = p \<and> (\<exists>gr. grad p = Some gr \<and> is_sparse gr)"
  using assms(2) unfolding update_param_comm [OF assms(1)]
  by (auto split: option.splits if_splits)

lemma update_param_sparse:
  assumes "grad p = Some gr" and "is_sparse gr"
  shows "update_param K cfg self g gi pj p = (Some RuntimeError, p)"
  using assms by (simp add: update_param_def)

text \<open>
  The claim C2, that a sparse gradient aborts the step without advancing any parameter,
  fails: with a dense parameter before the sparse one, the step raises
  \<open>RuntimeError\<close> after the dense parameter, which had no state, has reached step 1.
\<close>

theorem sparse_gradient_counterexample:
  "fst (step (spec_kernels lamb_dir) single_worker (None :: real closure option)
          (lamb_of [fresh_param, sparse_param] 0)) = Inl RuntimeError
   \<and> state (param_at (lamb_of [fresh_param, sparse_param] 0) 0 0) = None
   \<and> map_option state_step
        (state (param_at (snd (step (spec_kernels lamb_dir) single_worker (None :: real closure option)
          (lamb_of [fresh_param, sparse_param] 0))) 0 0)) = Some 1"
  by (simp add: ex_defs step_defs param_at_def spec_lamb_prepare_def spec_adam_def split: prod.splits)

text \<open>
  C2, amended.  When a communicator is configured, the overflow flag is clear and some
  parameter has a sparse gradient, the step raises \<open>RuntimeError\<close> at the first
  parameter with a sparse gradient, in the order of the loops: every parameter before it
  has been updated as in a step that returns, and it and every parameter after it are
  left as they were.
\<close>

theorem sparse_gradient_stops_midway:
  fixes K cfg closure self c
  defines "self1 \<equiv> snd (run_closure closure self)"
  defines "self' \<equiv> snd (step K cfg closure self)"
  assumes c: "comm cfg = Some c"
    and clear: "\<not> 0 < has_inf_or_nan K cfg self1"
    and sparse: "\<exists>gi < length (param_groups self1).
                   \<exists>pj < length (params (param_groups self1 ! gi)).
                     \<exists>gr. grad (param_at self1 gi pj) = Some gr \<and> is_sparse gr"
  shows "fst (step K cfg closure self) = Inl RuntimeError
       \<and> (\<exists>gi0 < length (param_groups self1).
            \<exists>pj0 < length (params (param_groups self1 ! gi0)).
              (\<exists>gr. grad (param_at self1 gi0 pj0) = Some gr \<and> is_sparse gr)
            \<and> (\<forall>gi < length (param_groups self1).
                 \<forall>pj < length (params (param_groups self1 ! gi)).
                   if gi < gi0 \<or> (gi = gi0 \<and> pj < pj0)
                   then update_param K cfg self1 (param_groups self1 ! gi) gi pj
                          (param_at self1 gi pj) = (None, param_at self' gi pj)
                   else param_at self' gi pj = param_at self1 gi pj))"
proof -
  obtain e gs where ug: "update_groups K cfg self1 0 (param_groups self1) = (e, gs)"
    by (cases "update_groups K cfg self1 0 (param_groups self1)")
  have st: "step K cfg closure self =
      (case e of None \<Rightarrow> Inr (fst (run_closure closure self)) | Some x \<Rightarrow> Inl x,
       self1\<lparr>steps_since_last_scale := steps_since_last_scale self + 1, param_groups := gs\<rparr>)"
    using step_unfold [of K cfg closure self] clear ug unfolding self1_def by simp
  have at: "param_groups self' = gs"
    unfolding self'_def st by simp
  from sparse obtain gi1 pj1 gr1 where s1: "gi1 < length (param_groups self1)"
      "pj1 < length (params (param_groups self1 ! gi1))"
      "grad (param_at self1 gi1 pj1) = Some gr1" "is_sparse gr1"
    by blast
  have "e \<noteq> None"
  proof
    assume "e = None"
    with ug have ok: "update_groups K cfg self1 0 (param_groups self1) = (None, gs)" by simp
    from update_groups_ok [OF ok s1(1)] obtain ps' where
      "update_params K cfg self1 (param_groups self1 ! gi1) gi1 0 (params (param_groups self1 ! gi1)) = (None, ps')"
      by auto
    from update_params_ok [OF this s1(2)]
    have "fst (update_param K cfg self1 (param_groups self1 ! gi1) gi1 pj1 (param_at self1 gi1 pj1)) = None"
      by (simp add: param_at_def)
    then show False
      using update_param_sparse [OF s1(3) s1(4)] by simp
  qed
  then obtain err where e: "e = Some err" by (cases e) auto
  from update_groups_err [OF ug [unfolded e]] obtain k ps' where k:
      "k < length (param_groups self1)"
      "update_params K cfg self1 (param_groups self1 ! k) k 0 (params (param_groups self1 ! k)) = (Some err, ps')"
      "gs ! k = (param_groups self1 ! k)\<lparr>params := ps'\<rparr>"
      "\<forall>i < k. \<exists>ps'. update_params K cfg self1 (param_groups self1 ! i) i 0 (params (param_groups self1 ! i)) = (None, ps')
              \<and> gs ! i = (param_groups self1 ! i)\<lparr>params := ps'\<rparr>"
      "\<forall>i. k < i \<and> i < length (param_groups self1) \<longrightarrow> gs ! i = param_groups self1 ! i"
    by auto
  from update_params_err [OF k(2)] obtain j where j:
      "j < length (params (param_groups self1 ! k))"
      "update_param K cfg self1 (param_groups self1 ! k) k j (params (param_groups self1 ! k) ! j) = (Some err, ps' ! j)"
      "\<forall>i < j. update_param K cfg self1 (param_groups self1 ! k) k i (params (param_groups self1 ! k) ! i) = (None, ps' ! i)"
      "\<forall>i. j < i \<and> i < length (params (param_groups self1 ! k)) \<longrightarrow> ps' ! i = params (param_groups self1 ! k) ! i"
    by auto
  from update_param_error_comm [OF c j(2)] have r: "err = RuntimeError"
      "ps' ! j = params (param_groups self1 ! k) ! j"
      "\<exists>gr. grad (param_at self1 k j) = Some gr \<and> is_sparse gr"
    by (auto simp: param_at_def)
  have out: "fst (step K cfg closure self) = Inl RuntimeError"
    unfolding st e r(1) by simp
  have each: "if gi < k \<or> (gi = k \<and> pj < j)
        then update_param K cfg self1 (param_groups self1 ! gi) gi pj
               (param_at self1 gi pj) = (None, param_at self' gi pj)
        else param_at self' gi pj = param_at self1 gi pj"
    if gi: "gi < length (param_groups self1)" and pj: "pj < length (params (param_groups self1 ! gi))"
    for gi pj
  proof -
    consider "gi < k" | "gi = k" "pj < j" | "gi = k" "pj = j" | "gi = k" "j < pj" | "k < gi"
      by linarith
    then show ?thesis
    proof cases
      case 1
      with k(4) obtain qs where
        qs: "update_params K cfg self1 (param_groups self1 ! gi) gi 0 (params (param_groups self1 ! gi)) = (None, qs)"
        "gs ! gi = (param_groups self1 ! gi)\<lparr>params := qs\<rparr>"
        by blast
      from update_params_ok [OF qs(1) pj] qs(2) 1 show ?thesis
        by (simp add: param_at_def at)
    next
      case 2
      with j(3) k(3) show ?thesis by (simp add: param_at_def at)
    next
      case 3
      with r(2) k(3) show ?thesis by (simp add: param_at_def at)
    next
      case 4
      with j(4) k(3) pj show ?thesis by (simp add: param_at_def at)
    next
      case 5
      with k(5) gi show ?thesis by (simp add: param_at_def at)
    qed
  qed
  from out k(1) j(1) r(3) each show ?thesis by blast
qed

theorem sparse_gradient_stops_midway_witness:
  "comm single_worker = Some empty_peers
   \<and> \<not> 0 < has_inf_or_nan (spec_kernels lamb_dir) single_worker
            (snd (run_closure (None :: real closure option) (lamb_of [fresh_param, sparse_param, warm_param] 0)))
   \<and> grad (param_at (lamb_of [fresh_param, sparse_param, warm_param] 0) 0 1)
       = Some \<lparr>gvals = [Finite 1, Finite 0], is_sparse = True\<rparr>
   \<and> fst (step (spec_kernels lamb_dir) single_worker (None :: real closure option)
          (lamb_of [fresh_param, sparse_param, warm_param] 0)) = Inl RuntimeError"
proof -
  let ?s = "lamb_of [fresh_param, sparse_param, warm_param] 0"
  have c: "comm single_worker = Some empty_peers"
    by (simp add: single_worker_def empty_peers_def)
  have f: "\<not> 0 < has_inf_or_nan (spec_kernels lamb_dir) single_worker
            (snd (run_closure (None :: real closure option) ?s))"
    by (simp add: ex_defs step_defs)
  have g: "grad (param_at ?s 0 1) = Some \<lparr>gvals = [Finite 1, Finite 0], is_sparse = True\<rparr>"
    by (simp add: ex_defs param_at_def)
  have sp: "\<exists>gi < length (param_groups (snd (run_closure (None :: real closure option) ?s))).
              \<exists>pj < length (params (param_groups (snd (run_closure (None :: real closure option) ?s)) ! gi)).
                \<exists>gr. grad (param_at (snd (run_closure (None :: real closure option) ?s)) gi pj) = Some gr
                      \<and> is_sparse gr"
  proof (intro exI conjI)
    show "0 < length (param_groups (snd (run_closure (None :: real closure option) ?s)))"
      by (simp add: lamb_of_def)
    show "1 < length (params (param_groups (snd (run_closure (None :: real closure option) ?s)) ! 0))"
      by (simp add: lamb_of_def)
    show "grad (param_at (snd (run_closure (None :: real closure option) ?s)) 0 1)
            = Some \<lparr>gvals = [Finite 1, Finite 0], is_sparse = True\<rparr>"
      using g by simp
    show "is_sparse \<lparr>gvals = [Finite 1, Finite 0], is_sparse = True\<rparr>"
      by simp
  qed
  show ?thesis
    using c f g sparse_gradient_stops_midway [OF c f sp, THEN conjunct1] by simp
qed

section \<open>A configuration without communicator\<close>

lemma first_grad_append:
  "first_grad (ps @ qs) = (case first_grad ps of None \<Rightarrow> first_grad qs | Some gr \<Rightarrow> Some gr)"
  by (induction ps) (simp_all split: option.splits)

lemma update_param_no_comm:
  assumes "comm cfg = None"
  shows "fst (update_param K cfg self g gi pj p) =
           (case grad p of None \<Rightarrow> None
            | Some gr \<Rightarrow> if is_sparse gr then Some RuntimeError else Some KeyError)"
  using assms by (simp add: update_param_def Let_def split: option.splits prod.splits)

lemma update_params_no_comm:
  assumes "comm cfg = None"
  shows "fst (update_params K cfg self g gi pj ps) =
           (case first_grad ps of None \<Rightarrow> None
            | Some gr \<Rightarrow> if is_sparse gr then Some RuntimeError else Some KeyError)"
proof (induction ps arbitrary: pj)
  case Nil
  then show ?case by simp
next
  case (Cons p ps)
  show ?case
    using update_param_no_comm [OF assms, of K self g gi pj p] Cons.IH [of "Suc pj"]
    by (cases "update_param K cfg self g gi pj p"; cases "update_params K cfg self g gi (Suc pj) ps")
       (auto split: option.splits if_splits)
qed

lemma update_groups_no_comm:
  assumes "comm cfg = None"
  shows "fst (update_groups K cfg self gi gs) =
           (case first_grad (concat (map params gs)) of None \<Rightarrow> None
            | Some gr \<Rightarrow> if is_sparse gr then Some RuntimeError else Some KeyError)"
proof (induction gs arbitrary: gi)
  case Nil
  then show ?case by simp
next
  case (Cons g gs)
  show ?case
    using update_params_no_comm [OF assms, of K self g gi 0 "params g"] Cons.IH [of "Suc gi"]
    by (cases "update_params K cfg self g gi 0 (params g)"; cases "update_groups K cfg self (Suc gi) gs")
       (auto simp: first_grad_append split: option.splits if_splits)
qed

text \<open>
  The claim C10, that every step without \<open>"comm"\<close> and with a defined gradient
  reaches the lookup \<open>config["comm"]\<close>, fails: when the local check finds an overflow,
  the step raises \<open>OverflowError\<close> before the update loop and changes nothing.
\<close>

theorem no_comm_counterexample:
  "comm no_comm = None
   \<and> grad (param_at (lamb_of [inf_param] 0) 0 0) \<noteq> None
   \<and> step (spec_kernels lamb_dir) no_comm (None :: real closure option) (lamb_of [inf_param] 0)
       = (Inl OverflowError, lamb_of [inf_param] 0)"
  by (simp add: ex_defs step_defs param_at_def)

text \<open>
  C10, amended.  Without \<open>"comm"\<close> the overflow flag is the local flag, no
  reduction takes place, and the outcome of the step is decided by the local flag and by
  the first defined gradient in the order of the loops: \<open>OverflowError\<close> when the
  local flag is raised; otherwise the returned loss when no gradient is defined,
  \<open>RuntimeError\<close> when the first defined gradient is sparse, and \<open>KeyError\<close>, from
  the unguarded lookup \<open>config["comm"]\<close>, when it is dense.
\<close>

theorem no_comm_outcome:
  assumes "comm cfg = None"
  shows "has_inf_or_nan K cfg (snd (run_closure closure self))
           = check_overflow K (snd (run_closure closure self))
       \<and> fst (step K cfg closure self) =
           (if 0 < check_overflow K (snd (run_closure closure self)) then Inl OverflowError
            else case first_grad (all_params (snd (run_closure closure self))) of
                   None \<Rightarrow> Inr (fst (run_closure closure self))
                 | Some gr \<Rightarrow> if is_sparse gr then Inl RuntimeError else Inl KeyError)"
proof -
  have f: "has_inf_or_nan K cfg (snd (run_closure closure self))
           = check_overflow K (snd (run_closure closure self))"
    using assms by (simp add: has_inf_or_nan_def)
  show ?thesis
    unfolding fst_step f update_groups_no_comm [OF assms] all_params_def
    by (simp split: option.splits)
qed

theorem no_comm_outcome_witness:
  "comm no_comm = None
   \<and> fst (step (spec_kernels lamb_dir) no_comm (None :: real closure option)
          (lamb_of [fresh_param] 0)) = Inl KeyError"
proof -
  have c: "comm no_comm = None"
    by (simp add: no_comm_def)
  have f: "check_overflow (spec_kernels lamb_dir) (lamb_of [fresh_param] 0) = 0"
    by (simp add: ex_defs step_defs)
  have g: "first_grad (all_params (lamb_of [fresh_param] 0))
             = Some \<lparr>gvals = [Finite 3, Finite 4], is_sparse = False\<rparr>"
    by (simp add: ex_defs all_params_def)
  show ?thesis
    using c no_comm_outcome [OF c, of "spec_kernels lamb_dir" "None :: real closure option"
                               "lamb_of [fresh_param] 0", THEN conjunct2]
    by (simp add: f g)
qed

section \<open>The counter of steps since the last rescaling\<close>

text \<open>
  The claim C6, that \<open>steps_since_last_scale\<close> is incremented only after every
  parameter has been updated, fails: a step that stops at a sparse gradient has
  incremented it.
\<close>

theorem steps_counter_counterexample:
  "fst (step (spec_kernels lamb_dir) single_worker (None :: real closure option)
          (lamb_of [sparse_param] 0)) = Inl RuntimeError
   \<and> steps_since_last_scale (lamb_of [sparse_param] 0) = 0
   \<and> steps_since_last_scale (snd (step (spec_kernels lamb_dir) single_worker (None :: real closure option)
          (lamb_of [sparse_param] 0))) = 1"
  by (simp add: ex_defs step_defs)

text \<open>
  C6, amended.  \<open>steps_since_last_scale\<close> is incremented exactly once by every step
  whose overflow flag is clear, after the overflow check and before the update loop, and
  is left unchanged by a step that aborts on overflow; in particular a step that fails
  in the update loop, with \<open>RuntimeError\<close> or \<open>KeyError\<close>, has incremented it.
\<close>

theorem steps_since_last_scale_step:
  "steps_since_last_scale (snd (step K cfg closure self)) =
     (if 0 < has_inf_or_nan K cfg (snd (run_closure closure self))
      then steps_since_last_scale self else steps_since_last_scale self + 1)
   \<and> (fst (step K cfg closure self) \<in> {Inl RuntimeError, Inl KeyError} \<longrightarrow>
        steps_since_last_scale (snd (step K cfg closure self)) = steps_since_last_scale self + 1)"
proof -
  obtain l s1 where r: "run_closure closure self = (l, s1)"
    by (cases "run_closure closure self")
  have "steps_since_last_scale s1 = steps_since_last_scale self"
    using run_closure_fields(2) [of closure self] r by simp
  then have 1: "steps_since_last_scale (snd (step K cfg closure self)) =
     (if 0 < has_inf_or_nan K cfg (snd (run_closure closure self))
      then steps_since_last_scale self else steps_since_last_scale self + 1)"
    using r by (auto simp: step_def Let_def split: prod.splits option.splits)
  have 2: "fst (step K cfg closure self) \<in> {Inl RuntimeError, Inl KeyError} \<Longrightarrow>
             \<not> 0 < has_inf_or_nan K cfg (snd (run_closure closure self))"
    unfolding fst_step by (auto split: if_splits)
  from 1 2 show ?thesis by simp
qed

theorem steps_since_last_scale_step_witness:
  "fst (step (spec_kernels lamb_dir) no_comm (None :: real closure option)
          (lamb_of [warm_param] 0)) \<in> {Inl RuntimeError, Inl KeyError}
   \<and> steps_since_last_scale (snd (step (spec_kernels lamb_dir) no_comm (None :: real closure option)
          (lamb_of [warm_param] 0))) = 1"
proof -
  have h: "fst (step (spec_kernels lamb_dir) no_comm (None :: real closure option)
          (lamb_of [warm_param] 0)) \<in> {Inl RuntimeError, Inl KeyError}"
    by (simp add: ex_defs step_defs split: prod.splits)
  have z: "steps_since_last_scale (lamb_of [warm_param] 0) = 0"
    by (simp add: lamb_of_def)
  show ?thesis
    using h steps_since_last_scale_step [of "spec_kernels lamb_dir" no_comm "None :: real closure option"
                "lamb_of [warm_param] 0", THEN conjunct2]
    by (simp add: z)
qed

section \<open>The outcome of a step\<close>

lemma step_with_closure:
  "step K cfg (Some c) self =
     (case step K cfg None (set_grads (snd (c self)) self) of
        (Inl e, s) \<Rightarrow> (Inl e, s)
      | (Inr l, s) \<Rightarrow> (Inr (Some (fst (c self))), s))"
  by (cases "c self")
     (auto simp: step_def run_closure_def Let_def split: prod.splits option.splits)

text \<open>
  The claim C4, that \<open>step\<close> returns the result of the closure together with a
  status whether or not the step succeeds, fails: when the overflow flag is raised the
  step ends with \<open>OverflowError\<close> and the loss 7 that the closure returned is lost.
\<close>

theorem closure_result_counterexample:
  "fst (step (spec_kernels lamb_dir) overflowing_peer (Some same_grads)
          (lamb_of [fresh_param] 0)) = Inl OverflowError
   \<and> fst (same_grads (lamb_of [fresh_param] 0)) = 7"
  by (simp add: ex_defs step_defs param_at_def run_closure_def set_grads_def same_grads_def)

text \<open>
  C4, amended.  \<open>step\<close> either raises \<open>OverflowError\<close>, \<open>RuntimeError\<close> or
  \<open>KeyError\<close>, or returns the result of the closure (\<open>None\<close> without closure); it
  raises \<open>OverflowError\<close> exactly when the overflow flag is raised.  The closure,
  when given, is evaluated first: the step with a closure is the step without closure
  on the gradients that the closure has computed, and the result of the closure is
  returned only when that step returns.
\<close>

theorem step_outcome:
  "fst (step K cfg closure self)
     \<in> {Inl OverflowError, Inl RuntimeError, Inl KeyError,
        Inr (map_option (\<lambda>c. fst (c self)) closure)}
   \<and> (fst (step K cfg closure self) = Inl OverflowError
        \<longleftrightarrow> 0 < has_inf_or_nan K cfg (snd (run_closure closure self)))
   \<and> step K cfg (Some c) self =
       (case step K cfg None (set_grads (snd (c self)) self) of
          (Inl e, s) \<Rightarrow> (Inl e, s)
        | (Inr l, s) \<Rightarrow> (Inr (Some (fst (c self))), s))"
proof -
  let ?e = "fst (update_groups K cfg (snd (run_closure closure self)) 0
                   (param_groups (snd (run_closure closure self))))"
  have e: "?e \<in> {None, Some RuntimeError, Some KeyError}"
    by (rule update_groups_errors)
  have 1: "fst (step K cfg closure self)
     \<in> {Inl OverflowError, Inl RuntimeError, Inl KeyError,
        Inr (map_option (\<lambda>c. fst (c self)) closure)}"
    using e unfolding fst_step fst_run_closure by (auto split: option.splits)
  have 2: "fst (step K cfg closure self) = Inl OverflowError
        \<longleftrightarrow> 0 < has_inf_or_nan K cfg (snd (run_closure closure self))"
    using e unfolding fst_step by (auto split: option.splits)
  show ?thesis
    using 1 2 step_with_closure [of K cfg c self] by simp
qed

section \<open>The sign of the scale factor\<close>

lemma scale_apply_op:
  "0 < scale self \<Longrightarrow> positive_rescale op \<Longrightarrow> 0 < scale (apply_op K op self)"
  by (cases op) (auto simp: justify_scale_def Let_def)

lemma scale_run:
  "0 < scale self \<Longrightarrow> \<forall>op \<in> set ops. positive_rescale op \<Longrightarrow> 0 < scale (run K ops self)"
  unfolding run_def
  by (induction ops arbitrary: self) (simp_all add: scale_apply_op)

text \<open>
  The claim C7, that the scale factor is positive in every reachable state, fails: the
  constructor accepts the scale 0 and stores it.
\<close>

theorem scale_zero_counterexample:
  "init [fresh_param] (1 / 1000) (9 / 10, 999 / 1000) (1 / 10 ^ 8) 0 0 0
     = Inr \<lparr>param_groups = [\<lparr>params = [fresh_param], lr = 1 / 1000, betas = (9 / 10, 999 / 1000),
                              eps = 1 / 10 ^ 8, weight_decay = 0\<rparr>],
            scale = 0, steps_since_last_scale = 0, hold_steps = 0\<rparr>
   \<and> \<not> 0 < scale \<lparr>param_groups = [\<lparr>params = [fresh_param], lr = 1 / 1000, betas = (9 / 10, 999 / 1000),
                              eps = 1 / 10 ^ 8, weight_decay = 0\<rparr>],
            scale = 0, steps_since_last_scale = 0, hold_steps = 0\<rparr>"
  by (simp add: init_def fresh_param_def)

text \<open>
  C7, amended.  When the optimizer is constructed with a positive scale and every call
  of \<open>justify_scale\<close> is given a positive scale, the scale factor is positive after
  any sequence of steps and rescalings.
\<close>

theorem positive_scale_preserved:
  assumes "init ps lr0 betas0 eps0 wd0 scale0 hold0 = Inr self"
    and "0 < scale0"
    and "\<forall>op \<in> set ops. positive_rescale op"
  shows "0 < scale (run K ops self)"
proof -
  have "scale self = scale0"
    using assms(1) by (auto simp: init_def split: if_splits)
  then show ?thesis
    using assms(2,3) by (simp add: scale_run)
qed

theorem positive_scale_preserved_witness:
  "init [fresh_param] (1 / 1000) (9 / 10, 999 / 1000) (1 / 10 ^ 8) 0 65536 0
     = Inr (lamb_of [fresh_param] 0)
   \<and> positive_rescale (Step single_worker (None :: real closure option))
   \<and> positive_rescale (JustifyScale 32768 :: real op)
   \<and> positive_rescale (Step overflowing_peer (None :: real closure option))
   \<and> 0 < scale (run (spec_kernels lamb_dir)
                 [Step single_worker (None :: real closure option), JustifyScale 32768,
                  Step overflowing_peer None] (lamb_of [fresh_param] 0))"
proof -
  have i: "init [fresh_param] (1 / 1000) (9 / 10, 999 / 1000) (1 / 10 ^ 8) 0 65536 0
             = Inr (lamb_of [fresh_param] 0)"
    by (simp add: init_def lamb_of_def)
  have p: "\<forall>op \<in> set [Step single_worker (None :: real closure option), JustifyScale 32768,
                    Step overflowing_peer None]. positive_rescale op"
    by simp
  have s: "(0 :: real) < 65536"
    by simp
  show ?thesis
    using i positive_scale_preserved [OF i s p, of "spec_kernels lamb_dir"] by simp
qed

section \<open>The scheduler: properties\<close>

text \<open>
  C9.  With a positive number of warmup iterations, the warmup curve of \<open>NoDecay\<close>
  is the linear ramp \<open>start_lr * num_iter / warmup_iter\<close>, which is 0 at iteration 0
  and \<open>start_lr\<close> at iteration \<open>warmup_iter\<close>, its post-warmup policy is the
  constant \<open>start_lr\<close>, and the effective learning rate, a function of the iteration
  count alone, is the ramp before iteration \<open>warmup_iter\<close> and \<open>start_lr\<close> from then
  on.
\<close>

theorem no_decay_lr:
  assumes "0 < warmup_iter self"
  shows "get_lr_warmpup self num_iter
           = Inr (start_lr self * real_of_int num_iter / real_of_int (warmup_iter self))
       \<and> get_lr_warmpup self 0 = Inr 0
       \<and> get_lr_warmpup self (warmup_iter self) = Inr (start_lr self)
       \<and> get_lr_decay self num_iter = start_lr self
       \<and> get_lr self num_iter =
           (if num_iter < warmup_iter self
            then Inr (start_lr self * real_of_int num_iter / real_of_int (warmup_iter self))
            else Inr (start_lr self))"
  using assms by (simp add: get_lr_warmpup_def get_lr_decay_def get_lr_def)

theorem no_decay_lr_witness:
  "0 < warmup_iter ramp_of_ten
   \<and> get_lr ramp_of_ten 0 = Inr 0
   \<and> get_lr ramp_of_ten 5 = Inr (1 / 2000)
   \<and> get_lr ramp_of_ten 10 = Inr (1 / 1000)
   \<and> get_lr ramp_of_ten 250 = Inr (1 / 1000)"
proof -
  have h: "0 < warmup_iter ramp_of_ten"
    by (simp add: ramp_of_ten_def)
  show ?thesis
    using h no_decay_lr [OF h, of 0] no_decay_lr [OF h, of 5] no_decay_lr [OF h, of 10]
      no_decay_lr [OF h, of 250]
    by (simp add: ramp_of_ten_def)
qed

end
